theory Spec2Isabelle
  imports Complex_Main "HOL-Library.Char_ord" "HOL-Library.List_Lexorder"
    "HOL-Library.Extended_Nat" "HOL-Library.Log_Nat"
begin

section \<open>Python values used by github\_trending\_bot.py\<close>

text \<open>
  The exceptions the modelled functions can raise. A function that can raise returns
  \<open>py_error + 'a\<close>, with \<open>Inl\<close> for the exception.
\<close>

datatype py_error = KeyError | ZeroDivisionError | OverflowError

text \<open>A JSON string field that is present: \<open>null\<close> (Python \<open>None\<close>) or a string.\<close>

datatype json_str = Null | Str string

text \<open>
  A repository record is the dict that the search API returns (and that
  \<open>json.load\<close> reads back). \<open>full_name\<close>, \<open>name\<close> and
  \<open>stargazers_count\<close> are present in every record. For the other keys \<open>None\<close>
  is "the dict has no such key": \<open>forks_count\<close> is read with \<open>.get\<close>;
  \<open>language\<close> is read with \<open>repo['language']\<close>, which raises \<open>KeyError\<close>
  on a dict without the key, and its value may be \<open>null\<close>; \<open>prev_stars\<close> is
  the key that \<open>compare_trends\<close> adds.
\<close>

record repo =
  full_name :: string
  name :: string
  stargazers_count :: int
  forks_count :: "int option"
  language :: "json_str option"
  prev_stars :: "int option"

text \<open>A \<open>for\<close> loop over a list whose body may raise: the first exception ends it.\<close>

fun for_each :: "('a \<Rightarrow> 's \<Rightarrow> py_error + 's) \<Rightarrow> 'a list \<Rightarrow> 's \<Rightarrow> py_error + 's" where
  "for_each body [] s = Inr s"
| "for_each body (x # xs) s =
     (case body x s of Inl e \<Rightarrow> Inl e | Inr s' \<Rightarrow> for_each body xs s')"

text \<open>A list comprehension \<open>[f(x) for x in xs]\<close> whose element expression may raise.\<close>

fun comprehension :: "('a \<Rightarrow> py_error + 'b) \<Rightarrow> 'a list \<Rightarrow> py_error + 'b list" where
  "comprehension f [] = Inr []"
| "comprehension f (x # xs) =
     (case f x of
        Inl e \<Rightarrow> Inl e
      | Inr y \<Rightarrow> (case comprehension f xs of Inl e \<Rightarrow> Inl e | Inr ys \<Rightarrow> Inr (y # ys)))"

text \<open>
  \<open>sorted(xs, key=k, reverse=True)\<close>. Python's sort is stable, and with
  \<open>reverse=True\<close> it still keeps elements of equal key in their original order:
  the list is reversed, sorted stably in ascending order, and reversed again.
\<close>

definition sorted_reverse :: "('a \<Rightarrow> 'k::linorder) \<Rightarrow> 'a list \<Rightarrow> 'a list" where
  "sorted_reverse k xs = rev (sort_key k (rev xs))"

text \<open>\<open>d.get(k, default)\<close> on a dict given as its items.\<close>

definition dict_get :: "('k \<times> int) list \<Rightarrow> 'k \<Rightarrow> int \<Rightarrow> int" where
  "dict_get d k dflt = (case map_of d k of None \<Rightarrow> dflt | Some v \<Rightarrow> v)"

section \<open>analyze\_data\<close>

text \<open>\<open>repo['language']\<close>: the value under the key, \<open>KeyError\<close> without the key.\<close>

definition getitem_language :: "repo \<Rightarrow> py_error + json_str" where
  "getitem_language r = (case language r of None \<Rightarrow> Inl KeyError | Some v \<Rightarrow> Inr v)"

text \<open>\<open>v or 'N/A'\<close>: \<open>None\<close> and the empty string are falsy.\<close>

fun or_na :: "json_str \<Rightarrow> string" where
  "or_na Null = ''N/A''"
| "or_na (Str s) = (if s = [] then ''N/A'' else s)"

text \<open>\<open>[repo['language'] or 'N/A' for repo in repos]\<close>\<close>

definition language_list :: "repo list \<Rightarrow> py_error + string list" where
  "language_list repos =
     comprehension (\<lambda>r. case getitem_language r of Inl e \<Rightarrow> Inl e | Inr v \<Rightarrow> Inr (or_na v)) repos"

text \<open>
  A \<open>Counter\<close> is a dict, and a dict keeps its keys in insertion order: an association
  list with one pair for each key. \<open>counter_add\<close> is \<open>self[elem] = self.get(elem, 0) + 1\<close>:
  a key already there keeps its place, a new key goes to the end.
\<close>

fun counter_add :: "'k \<Rightarrow> ('k \<times> int) list \<Rightarrow> ('k \<times> int) list" where
  "counter_add k [] = [(k, 1)]"
| "counter_add k ((k', c) # kcs) =
     (if k = k' then (k', c + 1) # kcs else (k', c) # counter_add k kcs)"

definition Counter :: "'k list \<Rightarrow> ('k \<times> int) list" where
  "Counter elems = foldl (\<lambda>d k. counter_add k d) [] elems"

text \<open>\<open>most_common()\<close> is \<open>sorted(self.items(), key=itemgetter(1), reverse=True)\<close>.\<close>

definition most_common :: "('k \<times> int) list \<Rightarrow> ('k \<times> int) list" where
  "most_common d = sorted_reverse snd d"

record summary =
  repo_count :: int
  total_stars :: int
  total_forks :: int
  language_stats :: "(string \<times> int) list"

text \<open>\<open>repo.get('forks_count', 0)\<close>\<close>

definition get_forks_count :: "repo \<Rightarrow> int" where
  "get_forks_count r = (case forks_count r of None \<Rightarrow> 0 | Some f \<Rightarrow> f)"

text \<open>
  \<open>analyze_data\<close> returns \<open>None\<close> for the empty list; otherwise it builds the language
  list first (where a record without the \<open>language\<close> key raises), then the sums.
\<close>

definition analyze_data :: "repo list \<Rightarrow> py_error + summary option" where
  "analyze_data repos =
     (if repos = [] then Inr None
      else case language_list repos of
        Inl e \<Rightarrow> Inl e
      | Inr langs \<Rightarrow>
          Inr (Some \<lparr> repo_count = int (length repos),
                      total_stars = sum_list (map stargazers_count repos),
                      total_forks = sum_list (map get_forks_count repos),
                      language_stats = most_common (Counter langs) \<rparr>))"

section \<open>compare\_trends\<close>

text \<open>
  The repository dicts are objects: the two lists hold references to them, and
  \<open>compare_trends\<close> assigns to a key of some. The store maps a reference to the
  dict it points to; a list of repositories is a list of references.
\<close>

type_synonym addr = nat
type_synonym heap = "addr \<Rightarrow> repo"

text \<open>
  In the model of \<open>compare_trends\<close> a percentage is carried as the exact value of
  the expression: the rational \<open>change / prev * 100\<close>, or \<open>float('inf')\<close>. The
  double that Python computes for it (rounded, and bounded in range, so that the
  division can raise \<open>OverflowError\<close> for operands of more than 300 digits) and the
  characters printed for it are modelled bit for bit in the last section of the model,
  \<open>pct_change\<close> and \<open>pct_str\<close>.
\<close>

datatype pyfloat = Finite rat | PosInf

text \<open>
  \<open>a / b\<close> on ints raises \<open>ZeroDivisionError\<close> when \<open>b\<close> is 0; the
  quotient is the exact one here (see above).
\<close>

definition truediv :: "int \<Rightarrow> int \<Rightarrow> py_error + rat" where
  "truediv a b = (if b = 0 then Inl ZeroDivisionError else Inr (of_int a / of_int b))"

text \<open>
  The percentage text: \<open>Signed2f x\<close> stands for the characters of
  \<open>f"{x:+.2f}%"\<close>, \<open>NA\<close> for \<open>"N/A"\<close>. What these characters are is
  the subject of \<open>pct_str\<close> below.
\<close>

datatype pct_text = NA | Signed2f pyfloat

text \<open>
  \<open>(change / prev * 100) if prev != 0 else float('inf')\<close>: a conditional expression
  evaluates only the branch it selects.
\<close>

definition percentage :: "int \<Rightarrow> int \<Rightarrow> py_error + pyfloat" where
  "percentage change prev =
     (if prev \<noteq> 0
      then (case truediv change prev of Inl e \<Rightarrow> Inl e | Inr q \<Rightarrow> Inr (Finite (q * 100)))
      else Inr PosInf)"

text \<open>\<open>f"{pct_change:+.2f}%" if prev != 0 else "N/A"\<close>\<close>

definition percentage_str :: "pyfloat \<Rightarrow> int \<Rightarrow> pct_text" where
  "percentage_str pct_change prev = (if prev \<noteq> 0 then Signed2f pct_change else NA)"

text \<open>What the function prints, line by line, as data.\<close>

datatype change_line =
  ChangeLine (cl_prev: int) (cl_curr: int) (cl_change: int) (cl_pct: pct_text)

datatype lang_line =
  LangLine (ll_lang: string) (ll_prev: int) (ll_curr: int) (ll_change: int) (ll_pct: pct_text)

datatype new_line = NewLine (nl_rank: int) (nl_name: string) (nl_stars: int)

datatype rank_line =
  RankLine (rl_up: bool) (rl_name: string) (rl_prev_rank: int) (rl_curr_rank: int)
    (rl_change: int) (rl_star_pct: pct_text)

record report =
  stars_line :: change_line
  forks_line :: change_line
  language_lines :: "lang_line list"
  new_lines :: "new_line list"
  rank_lines :: "rank_line list"

definition format_change :: "int \<Rightarrow> int \<Rightarrow> py_error + change_line" where
  "format_change prev_val curr_val =
     (let change = curr_val - prev_val in
      case percentage change prev_val of
        Inl e \<Rightarrow> Inl e
      | Inr pct_change \<Rightarrow>
          Inr (ChangeLine prev_val curr_val change (percentage_str pct_change prev_val)))"

definition all_langs :: "summary \<Rightarrow> summary \<Rightarrow> string set" where
  "all_langs previous_analysis current_analysis =
     set (map fst (language_stats previous_analysis)) \<union>
     set (map fst (language_stats current_analysis))"

text \<open>The body of the loop over \<open>sorted(all_langs)\<close>; the state is the lines printed so far.\<close>

definition language_step ::
  "summary \<Rightarrow> summary \<Rightarrow> string \<Rightarrow> lang_line list \<Rightarrow> py_error + lang_line list" where
  "language_step previous_analysis current_analysis lang printed =
     (let prev_count = dict_get (language_stats previous_analysis) lang 0;
          curr_count = dict_get (language_stats current_analysis) lang 0
      in if prev_count \<noteq> curr_count
         then (let change = curr_count - prev_count in
               case percentage change prev_count of
                 Inl e \<Rightarrow> Inl e
               | Inr pct_change \<Rightarrow>
                   Inr (printed @ [LangLine lang prev_count curr_count change
                                     (percentage_str pct_change prev_count)]))
         else Inr printed)"

text \<open>
  \<open>sorted\<close> of a set of strings: the strings are distinct and their order is total
  (by code point, then length), so the result does not depend on the order in which
  the set is iterated.
\<close>

definition language_changes :: "summary \<Rightarrow> summary \<Rightarrow> py_error + lang_line list" where
  "language_changes previous_analysis current_analysis =
     for_each (language_step previous_analysis current_analysis)
       (sorted_list_of_set (all_langs previous_analysis current_analysis)) []"

text \<open>\<open>enumerate(xs, i)\<close>\<close>

fun enumerate_from :: "int \<Rightarrow> 'a list \<Rightarrow> (int \<times> 'a) list" where
  "enumerate_from i [] = []"
| "enumerate_from i (x # xs) = (i, x) # enumerate_from (i + 1) xs"

text \<open>The value \<open>{'rank': i, 'stars': n}\<close> of \<open>prev_dict\<close> and \<open>curr_dict\<close>.\<close>

datatype entry = Entry (rank: int) (stars: int)

text \<open>
  The loop that fills \<open>prev_dict\<close> (and \<open>curr_dict\<close>): a later record of the same
  \<open>full_name\<close> overwrites the earlier one.
\<close>

definition index_of :: "heap \<Rightarrow> addr list \<Rightarrow> (string \<rightharpoonup> entry)" where
  "index_of h repos =
     foldl (\<lambda>d (i, a). d(full_name (h a) \<mapsto> Entry i (stargazers_count (h a))))
       Map.empty (enumerate_from 1 repos)"

text \<open>\<open>d[k]\<close>\<close>

definition getitem :: "('k \<rightharpoonup> 'v) \<Rightarrow> 'k \<Rightarrow> py_error + 'v" where
  "getitem d k = (case d k of None \<Rightarrow> Inl KeyError | Some v \<Rightarrow> Inr v)"

text \<open>\<open>[repo for repo in current_repos if repo['full_name'] not in prev_dict]\<close>\<close>

definition new_projects :: "(string \<rightharpoonup> entry) \<Rightarrow> heap \<Rightarrow> addr list \<Rightarrow> addr list" where
  "new_projects prev_dict h current_repos =
     filter (\<lambda>a. full_name (h a) \<notin> dom prev_dict) current_repos"

definition new_line_of :: "(string \<rightharpoonup> entry) \<Rightarrow> heap \<Rightarrow> addr \<Rightarrow> py_error + new_line" where
  "new_line_of curr_dict h a =
     (case getitem curr_dict (full_name (h a)) of
        Inl e \<Rightarrow> Inl e
      | Inr ce \<Rightarrow> Inr (NewLine (rank ce) (name (h a)) (stargazers_count (h a))))"

text \<open>
  An element of \<open>rank_changes\<close>: \<open>(repo, prev_rank, curr_rank, change)\<close>, the first
  component a reference.
\<close>

type_synonym rank_change = "addr \<times> int \<times> int \<times> int"

text \<open>
  The body of the loop that collects \<open>rank_changes\<close>. Its state is the list so far
  and the store: \<open>repo['prev_stars'] = ...\<close> writes to the record the current list
  refers to.
\<close>

definition rank_step ::
  "(string \<rightharpoonup> entry) \<Rightarrow> (string \<rightharpoonup> entry) \<Rightarrow> addr \<Rightarrow> rank_change list \<times> heap
     \<Rightarrow> py_error + rank_change list \<times> heap" where
  "rank_step prev_dict curr_dict a s =
     (case s of (rank_changes, h) \<Rightarrow>
        let nm = full_name (h a) in
        if nm \<in> dom prev_dict
        then (case getitem prev_dict nm of
                Inl e \<Rightarrow> Inl e
              | Inr pe \<Rightarrow>
                  (case getitem curr_dict nm of
                     Inl e \<Rightarrow> Inl e
                   | Inr ce \<Rightarrow>
                       let prev_rank = rank pe; curr_rank = rank ce in
                       if prev_rank \<noteq> curr_rank
                       then (let change = prev_rank - curr_rank;
                                 h' = h(a := (h a)\<lparr>prev_stars := Some (stars pe)\<rparr>)
                             in Inr (rank_changes @ [(a, prev_rank, curr_rank, change)], h'))
                       else Inr s))
        else Inr s)"

definition collect_rank_changes ::
  "(string \<rightharpoonup> entry) \<Rightarrow> (string \<rightharpoonup> entry) \<Rightarrow> heap \<Rightarrow> addr list
     \<Rightarrow> py_error + rank_change list \<times> heap" where
  "collect_rank_changes prev_dict curr_dict h current_repos =
     for_each (rank_step prev_dict curr_dict) current_repos ([], h)"

text \<open>\<open>abs(x[3])\<close>, the sort key.\<close>

definition abs_change :: "rank_change \<Rightarrow> int" where
  "abs_change x = (case x of (repo, prev_rank, curr_rank, change) \<Rightarrow> \<bar>change\<bar>)"

text \<open>
  The body of the loop that prints the rank changes; \<open>repo['prev_stars']\<close> raises on
  a record without the key.
\<close>

definition rank_line_of :: "heap \<Rightarrow> rank_change \<Rightarrow> py_error + rank_line" where
  "rank_line_of h x =
     (case x of (a, prev_rank, curr_rank, change) \<Rightarrow>
        (case prev_stars (h a) of
           None \<Rightarrow> Inl KeyError
         | Some ps \<Rightarrow>
             let star_change = stargazers_count (h a) - ps in
             (case percentage star_change ps of
                Inl e \<Rightarrow> Inl e
              | Inr star_pct \<Rightarrow>
                  Inr (RankLine (change > 0) (name (h a)) prev_rank curr_rank change
                         (percentage_str star_pct ps)))))"

text \<open>
  \<open>compare_trends\<close> returns nothing; the model returns what it prints and the store
  it leaves. The summaries and the two lists are read only: no statement of the
  function assigns to them.
\<close>

definition compare_trends ::
  "summary \<Rightarrow> summary \<Rightarrow> heap \<Rightarrow> addr list \<Rightarrow> addr list \<Rightarrow> py_error + report \<times> heap" where
  "compare_trends previous_analysis current_analysis h previous_repos current_repos =
     (case format_change (total_stars previous_analysis) (total_stars current_analysis) of
        Inl e \<Rightarrow> Inl e
      | Inr sl \<Rightarrow>
     (case format_change (total_forks previous_analysis) (total_forks current_analysis) of
        Inl e \<Rightarrow> Inl e
      | Inr fl \<Rightarrow>
     (case language_changes previous_analysis current_analysis of
        Inl e \<Rightarrow> Inl e
      | Inr ll \<Rightarrow>
     (let prev_dict = index_of h previous_repos;
          curr_dict = index_of h current_repos
      in case comprehension (new_line_of curr_dict h)
                (new_projects prev_dict h current_repos) of
        Inl e \<Rightarrow> Inl e
      | Inr nl \<Rightarrow>
     (case collect_rank_changes prev_dict curr_dict h current_repos of
        Inl e \<Rightarrow> Inl e
      | Inr (rank_changes, h') \<Rightarrow>
     (case comprehension (rank_line_of h') (sorted_reverse abs_change rank_changes) of
        Inl e \<Rightarrow> Inl e
      | Inr rl \<Rightarrow>
          Inr (\<lparr> stars_line = sl, forks_line = fl, language_lines = ll,
                  new_lines = nl, rank_lines = rl \<rparr>, h')))))))"

section \<open>find\_comparison\_file\<close>

text \<open>
  A naive \<open>datetime\<close> is a count of microseconds from a fixed origin, a
  \<open>timedelta\<close> a difference of two. \<open>timedelta.days\<close> is the quotient rounded
  down: a \<open>timedelta\<close> is normalised to \<open>0 \<le> seconds < 86400\<close>, so \<open>-9h\<close> is
  \<open>days = -1\<close>. The range limits of \<open>datetime\<close> are left out.
\<close>

definition us_per_day :: int where
  "us_per_day = 86400 * 1000000"

definition timedelta_days :: "int \<Rightarrow> int" where
  "timedelta_days td = td div us_per_day"

text \<open>\<open>os.path.basename\<close> (POSIX): what follows the last slash.\<close>

definition basename :: "string \<Rightarrow> string" where
  "basename p = rev (takeWhile (\<lambda>c. c \<noteq> CHR ''/'') (rev p))"

text \<open>\<open>filename[5:-5]\<close>; empty when the name has 10 characters or fewer.\<close>

definition date_str_of :: "string \<Rightarrow> string" where
  "date_str_of filename = take (length filename - 10) (drop 5 filename)"

text \<open>
  The body of the loop over the files. \<open>strptime\<close> is
  \<open>datetime.strptime(_, '%Y-%m-%d')\<close>, library code taken as a parameter:
  \<open>None\<close> when it raises \<open>ValueError\<close>, else the number of the day whose
  midnight it returns. The state is \<open>(closest_file, min_diff)\<close>, \<open>min_diff\<close>
  starting at \<open>float('inf')\<close>.
\<close>

definition scan_step ::
  "(string \<Rightarrow> int option) \<Rightarrow> int \<Rightarrow> string \<Rightarrow> string option \<times> enat \<Rightarrow> string option \<times> enat" where
  "scan_step strptime target_date file_path s =
     (case s of (closest_file, min_diff) \<Rightarrow>
        (case strptime (date_str_of (basename file_path)) of
           None \<Rightarrow> s
         | Some day \<Rightarrow>
             let file_date = day * us_per_day;
                 date_diff = nat \<bar>timedelta_days (target_date - file_date)\<bar>
             in if enat date_diff < min_diff then (Some file_path, enat date_diff) else s))"

text \<open>
  \<open>now\<close> is \<open>datetime.now()\<close> and \<open>files\<close> what \<open>glob.glob\<close> returns for
  \<open>data_*.json\<close> in the data directory.
\<close>

definition find_comparison_file ::
  "(string \<Rightarrow> int option) \<Rightarrow> int \<Rightarrow> int \<Rightarrow> string list \<Rightarrow> string option" where
  "find_comparison_file strptime now days_ago files =
     (let target_date = now - days_ago * us_per_day in
      if files = [] then None
      else (case foldl (\<lambda>s file_path. scan_step strptime target_date file_path s)
                   (None, \<infinity>) files of
              (closest_file, min_diff) \<Rightarrow> if min_diff \<le> 2 then closest_file else None))"

section \<open>The percentage as Python computes and prints it\<close>

text \<open>
  \<open>compare_trends\<close> computes every percentage with the same two expressions
  (lines 482-483 for the star and fork totals, 498-499 for a language, 545-546 for the
  stars of a repository):
  \<^verbatim>\<open>pct_change = (change / prev * 100) if prev != 0 else float('inf')\<close> and
  \<^verbatim>\<open>pct_str = f"{pct_change:+.2f}%" if prev != 0 else "N/A"\<close>.
  This section models them on IEEE 754 doubles.

  A double is a sign and a magnitude, finite or infinite; the magnitude of a finite
  double is a rational. No NaN arises: the code never multiplies an infinity by zero.
\<close>

datatype double = Dbl bool rat | DblInf bool

text \<open>Rounding to the nearest integer, a tie going to the even one.\<close>

definition round_half_even :: "rat \<Rightarrow> int" where
  "round_half_even y =
     (let f = \<lfloor>y\<rfloor>; r = y - of_int f
      in if r < 1 / 2 then f else if 1 / 2 < r then f + 1 else if even f then f else f + 1)"

text \<open>
  The binary exponent of a positive rational \<open>m\<close>: the \<open>e\<close> with
  \<open>2 ^ e \<le> m < 2 ^ (e + 1)\<close>, found from the bit lengths of numerator and
  denominator.
\<close>

definition ilog2 :: "rat \<Rightarrow> int" where
  "ilog2 m =
     (case quotient_of m of (a, b) \<Rightarrow>
        let d = bitlen a - bitlen b in if 2 powi d \<le> m then d else d - 1)"

text \<open>
  The exponent of the least normal double, \<open>2 ^ -1022\<close>, and the exponent that
  no finite double reaches, \<open>2 ^ 1024\<close>.
\<close>

definition dbl_min_exp :: int where
  "dbl_min_exp = - 1022"

definition dbl_max_exp :: int where
  "dbl_max_exp = 1024"

text \<open>
  The magnitude \<open>m \<ge> 0\<close> rounded to the nearest double, ties to even: a multiple
  of \<open>2 ^ (e - 52)\<close> for a normal number of exponent \<open>e\<close>, of \<open>2 ^ -1074\<close>
  for a subnormal one. \<open>None\<close> when the rounded magnitude is \<open>2 ^ 1024\<close> or more,
  beyond every finite double.
\<close>

definition round_double :: "rat \<Rightarrow> rat option" where
  "round_double m =
     (if m = 0 then Some 0
      else let e = ilog2 m;
               q = 2 powi (max e dbl_min_exp - 52);
               r = of_int (round_half_even (m / q)) * q
           in if r = 0 then Some 0
              else if dbl_max_exp \<le> ilog2 r then None else Some r)"

text \<open>
  \<open>a / b\<close> on ints: \<open>ZeroDivisionError\<close> when \<open>b\<close> is 0; otherwise the
  correctly rounded quotient, whose sign is negative when exactly one operand is
  (also when the magnitude is zero or rounds to zero), and \<open>OverflowError\<close> when
  the quotient is beyond the doubles.
\<close>

definition int_truediv :: "int \<Rightarrow> int \<Rightarrow> py_error + double" where
  "int_truediv a b =
     (if b = 0 then Inl ZeroDivisionError
      else case round_double \<bar>of_int a / of_int b\<bar> of
             None \<Rightarrow> Inl OverflowError
           | Some r \<Rightarrow> Inr (Dbl ((a < 0) \<noteq> (b < 0)) r))"

text \<open>
  \<open>x * 100\<close> on a double: the product rounded to the nearest double; a product
  beyond the doubles is an infinity, not an exception.
\<close>

definition float_mul_100 :: "double \<Rightarrow> double" where
  "float_mul_100 x =
     (case x of
        DblInf s \<Rightarrow> DblInf s
      | Dbl s m \<Rightarrow> (case round_double (m * 100) of None \<Rightarrow> DblInf s | Some r \<Rightarrow> Dbl s r))"

text \<open>
  \<open>(change / prev * 100) if prev != 0 else float('inf')\<close>: only the selected
  branch is evaluated.
\<close>

definition pct_change :: "int \<Rightarrow> int \<Rightarrow> py_error + double" where
  "pct_change change prev =
     (if prev \<noteq> 0
      then (case int_truediv change prev of Inl e \<Rightarrow> Inl e | Inr q \<Rightarrow> Inr (float_mul_100 q))
      else Inr (DblInf False))"

text \<open>The character of a decimal digit, and the decimal numeral of a natural number.\<close>

definition digit :: "int \<Rightarrow> char" where
  "digit n = char_of (48 + n)"

function decimal :: "int \<Rightarrow> string" where
  "decimal n = (if n < 10 then [digit n] else decimal (n div 10) @ [digit (n mod 10)])"
  by pat_completeness auto
termination
  by (relation "measure nat") auto

declare decimal.simps [simp del]

text \<open>
  The format \<open>+.2f\<close>: the sign, always; then the value of the double rounded to
  hundredths (correctly, from its exact value, ties to even), as integer part, point
  and two digits. An infinity is printed as \<open>+inf\<close> or \<open>-inf\<close>.
\<close>

definition format_plus_2f :: "double \<Rightarrow> string" where
  "format_plus_2f x =
     (case x of
        DblInf s \<Rightarrow> (if s then ''-inf'' else ''+inf'')
      | Dbl s m \<Rightarrow>
          let n = round_half_even (m * 100)
          in (if s then ''-'' else ''+'') @ decimal (n div 100) @ ''.''
               @ [digit (n mod 100 div 10), digit (n mod 10)])"

text \<open>
  The two lines together: \<open>pct_change\<close> is computed first (and may raise), then
  \<open>f"{pct_change:+.2f}%" if prev != 0 else "N/A"\<close>.
\<close>

definition pct_str :: "int \<Rightarrow> int \<Rightarrow> py_error + string" where
  "pct_str change prev =
     (case pct_change change prev of
        Inl e \<Rightarrow> Inl e
      | Inr p \<Rightarrow> Inr (if prev \<noteq> 0 then format_plus_2f p @ ''%'' else ''N/A''))"

section \<open>Closed forms and example data used in the proofs\<close>

text \<open>
  The definitions of this section are not part of the model: they name the closed
  forms that the loops are proved equal to, and the concrete inputs at which the
  theorems are instantiated.
\<close>

text \<open>The percentage text for a change against a baseline.\<close>

definition pct_of :: "int \<Rightarrow> int \<Rightarrow> pct_text" where
  "pct_of change prev =
     (if prev = 0 then NA else Signed2f (Finite (of_int change / of_int prev * 100)))"

definition lang_line_of :: "summary \<Rightarrow> summary \<Rightarrow> string \<Rightarrow> lang_line" where
  "lang_line_of pa ca l =
     (let p = dict_get (language_stats pa) l 0; c = dict_get (language_stats ca) l 0
      in LangLine l p c (c - p) (pct_of (c - p) p))"

text \<open>
  A current record has a rank change when its \<open>full_name\<close> is in both indexes with
  different ranks.
\<close>

definition rank_moved ::
  "(string \<rightharpoonup> entry) \<Rightarrow> (string \<rightharpoonup> entry) \<Rightarrow> heap \<Rightarrow> addr \<Rightarrow> bool" where
  "rank_moved pd cd h a =
     (case pd (full_name (h a)) of
        None \<Rightarrow> False
      | Some pe \<Rightarrow> (case cd (full_name (h a)) of None \<Rightarrow> False | Some ce \<Rightarrow> rank pe \<noteq> rank ce))"

definition rank_change_of ::
  "(string \<rightharpoonup> entry) \<Rightarrow> (string \<rightharpoonup> entry) \<Rightarrow> heap \<Rightarrow> addr \<Rightarrow> rank_change" where
  "rank_change_of pd cd h a =
     (let pr = rank (the (pd (full_name (h a)))); cr = rank (the (cd (full_name (h a))))
      in (a, pr, cr, pr - cr))"

text \<open>The store after the loop over \<open>as\<close> that started in \<open>hh\<close>.\<close>

definition heap_after ::
  "(string \<rightharpoonup> entry) \<Rightarrow> (string \<rightharpoonup> entry) \<Rightarrow> heap \<Rightarrow> addr list \<Rightarrow> heap \<Rightarrow> heap" where
  "heap_after pd cd h as hh =
     (\<lambda>a. if a \<in> set as \<and> rank_moved pd cd h a
          then (hh a)\<lparr>prev_stars := Some (stars (the (pd (full_name (h a)))))\<rparr>
          else hh a)"

definition rank_line_closed :: "(string \<rightharpoonup> entry) \<Rightarrow> heap \<Rightarrow> rank_change \<Rightarrow> rank_line" where
  "rank_line_closed pd h x =
     (case x of (a, pr, cr, c) \<Rightarrow>
        RankLine (0 < c) (name (h a)) pr cr c
          (pct_of (stargazers_count (h a) - stars (the (pd (full_name (h a)))))
                  (stars (the (pd (full_name (h a)))))))"

text \<open>Example records, a store holding them, and example summaries.\<close>

definition ex_a :: repo where
  "ex_a = \<lparr> full_name = ''o/a'', name = ''a'', stargazers_count = 100, forks_count = None,
            language = Some Null, prev_stars = None \<rparr>"

definition ex_b :: repo where
  "ex_b = \<lparr> full_name = ''o/b'', name = ''b'', stargazers_count = 50, forks_count = Some 7,
            language = Some (Str ''Go''), prev_stars = None \<rparr>"

definition ex_nolang :: repo where
  "ex_nolang = \<lparr> full_name = ''o/n'', name = ''n'', stargazers_count = 5, forks_count = Some 1,
                 language = None, prev_stars = None \<rparr>"

definition ex_curr_b :: repo where
  "ex_curr_b = \<lparr> full_name = ''o/b'', name = ''b'', stargazers_count = 80, forks_count = Some 9,
                 language = Some (Str ''Go''), prev_stars = None \<rparr>"

definition ex_curr_c :: repo where
  "ex_curr_c = \<lparr> full_name = ''o/c'', name = ''c'', stargazers_count = 60, forks_count = None,
                 language = Some (Str ''Rust''), prev_stars = None \<rparr>"

definition ex_curr_a :: repo where
  "ex_curr_a = \<lparr> full_name = ''o/a'', name = ''a'', stargazers_count = 90, forks_count = None,
                 language = Some Null, prev_stars = None \<rparr>"

definition ex_heap :: heap where
  "ex_heap = (\<lambda>_. ex_a)(1 := ex_b, 2 := ex_curr_b, 3 := ex_curr_c, 4 := ex_curr_a)"

definition ex_prev_summary :: summary where
  "ex_prev_summary = \<lparr> repo_count = 2, total_stars = 150, total_forks = 7,
                       language_stats = [(''N/A'', 1), (''Go'', 1)] \<rparr>"

definition ex_curr_summary :: summary where
  "ex_curr_summary = \<lparr> repo_count = 2, total_stars = 140, total_forks = 9,
                       language_stats = [(''Go'', 1), (''Rust'', 1)] \<rparr>"

definition ex_zero_summary :: summary where
  "ex_zero_summary = \<lparr> repo_count = 1, total_stars = 0, total_forks = 0,
                       language_stats = [(''Go'', 1)] \<rparr>"

text \<open>
  Example data for the snapshot lookup: a \<open>strptime\<close> that knows three dates (the
  numbers are the proleptic Gregorian ordinals of the days), a clock reading of
  2025-07-30 15:48:57 in microseconds from the midnight before day 1, and a listing
  with one name that carries no date.
\<close>

definition ex_strptime :: "string \<Rightarrow> int option" where
  "ex_strptime =
     map_of [(''2025-07-20'', 739452), (''2025-07-22'', 739454), (''2025-07-24'', 739456)]"

definition ex_now :: int where
  "ex_now = 63889573737000000"

definition ex_files :: "string list" where
  "ex_files = [''data/data_2025-07-20.json'', ''data/data_notes.json'',
               ''data/data_2025-07-24.json'', ''data/data_2025-07-22.json'']"

text \<open>
  The day parsed from a path, the day difference the loop computes for it, and the
  invariant of the loop: \<open>closest_file\<close> is the first file of least difference
  among the parsable ones seen so far, \<open>min_diff\<close> its difference.
\<close>

definition file_day :: "(string \<Rightarrow> int option) \<Rightarrow> string \<Rightarrow> int option" where
  "file_day strptime file_path = strptime (date_str_of (basename file_path))"

definition day_diff :: "int \<Rightarrow> int \<Rightarrow> nat" where
  "day_diff target_date day = nat \<bar>timedelta_days (target_date - day * us_per_day)\<bar>"

definition closest_inv ::
  "(string \<Rightarrow> int option) \<Rightarrow> int \<Rightarrow> string list \<Rightarrow> string option \<times> enat \<Rightarrow> bool" where
  "closest_inv strptime target_date xs s =
     (case s of (closest_file, min_diff) \<Rightarrow>
        (case closest_file of
           None \<Rightarrow> min_diff = \<infinity> \<and> (\<forall>f\<in>set xs. file_day strptime f = None)
         | Some f \<Rightarrow>
             (\<exists>i<length xs. \<exists>d. xs ! i = f \<and> file_day strptime f = Some d
                \<and> min_diff = enat (day_diff target_date d)
                \<and> (\<forall>j<length xs. \<forall>e. file_day strptime (xs ! j) = Some e \<longrightarrow>
                       day_diff target_date d \<le> day_diff target_date e
                       \<and> (j < i \<longrightarrow> day_diff target_date d < day_diff target_date e)))))"

section \<open>Loops, sorting and counters\<close>

lemma comprehension_total:
  "(\<And>x. x \<in> set xs \<Longrightarrow> f x = Inr (g x)) \<Longrightarrow> comprehension f xs = Inr (map g xs)"
  by (induction xs) auto

lemma sorted_reverse_set: "set (sorted_reverse k xs) = set xs"
  by (simp add: sorted_reverse_def)

lemma sorted_reverse_desc: "sorted (rev (map k (sorted_reverse k xs)))"
  by (simp add: sorted_reverse_def rev_map)


lemma sorted_reverse_distinct_map:
  "distinct (map f (sorted_reverse k xs)) = distinct (map f xs)"
  by (simp add: sorted_reverse_def distinct_map)

lemma map_of_sorted_reverse:
  "distinct (map fst xs) \<Longrightarrow> map_of (sorted_reverse k xs) = map_of xs"
  by (rule map_of_inject_set[THEN iffD2])
     (auto simp: sorted_reverse_distinct_map sorted_reverse_set)

lemma dict_get_counter_add:
  "dict_get (counter_add k d) l 0 = dict_get d l 0 + (if k = l then 1 else 0)"
  by (induction k d rule: counter_add.induct) (auto simp: dict_get_def)

lemma keys_counter_add: "fst ` set (counter_add k d) = insert k (fst ` set d)"
  by (induction k d rule: counter_add.induct) auto

lemma distinct_counter_add:
  "distinct (map fst (counter_add k d)) = distinct (map fst d)"
  by (induction k d rule: counter_add.induct) (auto simp: keys_counter_add)

lemma foldl_counter_get:
  "dict_get (foldl (\<lambda>d k. counter_add k d) d0 elems) l 0
     = dict_get d0 l 0 + int (length (filter (\<lambda>x. x = l) elems))"
  by (induction elems arbitrary: d0) (auto simp: dict_get_counter_add)

lemma foldl_counter_keys:
  "fst ` set (foldl (\<lambda>d k. counter_add k d) d0 elems) = fst ` set d0 \<union> set elems"
  by (induction elems arbitrary: d0) (auto simp: keys_counter_add)

lemma foldl_counter_distinct:
  "distinct (map fst (foldl (\<lambda>d k. counter_add k d) d0 elems)) = distinct (map fst d0)"
  by (induction elems arbitrary: d0) (auto simp: distinct_counter_add)

lemma Counter_get: "dict_get (Counter elems) l 0 = int (length (filter (\<lambda>x. x = l) elems))"
  using foldl_counter_get [of "[]" elems l] by (simp add: Counter_def dict_get_def)

lemma Counter_keys: "fst ` set (Counter elems) = set elems"
  by (simp add: Counter_def foldl_counter_keys)

lemma Counter_distinct: "distinct (map fst (Counter elems))"
  by (simp add: Counter_def foldl_counter_distinct)

lemma most_common_get:
  "distinct (map fst d) \<Longrightarrow> dict_get (most_common d) l dflt = dict_get d l dflt"
  by (simp add: dict_get_def most_common_def map_of_sorted_reverse)

section \<open>The summary of a snapshot\<close>

lemma language_list_total:
  assumes "\<forall>r\<in>set repos. language r \<noteq> None"
  shows "language_list repos = Inr (map (\<lambda>r. or_na (the (language r))) repos)"
  unfolding language_list_def
  by (rule comprehension_total) (use assms in \<open>auto simp: getitem_language_def\<close>)

lemma analyze_data_nonempty:
  assumes "repos \<noteq> []" and "\<forall>r\<in>set repos. language r \<noteq> None"
  shows "analyze_data repos =
     Inr (Some \<lparr> repo_count = int (length repos),
                 total_stars = sum_list (map stargazers_count repos),
                 total_forks = sum_list (map get_forks_count repos),
                 language_stats =
                   most_common (Counter (map (\<lambda>r. or_na (the (language r))) repos)) \<rparr>)"
  using assms by (simp add: analyze_data_def language_list_total)

text \<open>
  Claim C7, as the code has it. \<open>analyze_data\<close> returns \<open>None\<close> for the empty
  list. For a non-empty list in which every record has the \<open>language\<close> key (its value
  may be \<open>null\<close>), it returns a summary whose \<open>repo_count\<close> is the length of the list,
  whose \<open>total_stars\<close> is the sum of the star counts, and whose \<open>total_forks\<close> is the
  sum of the fork counts, 0 standing for the fork count of a record without that key.
\<close>

theorem analyze_data_totals:
  "analyze_data [] = Inr None \<and>
   (repos \<noteq> [] \<longrightarrow> (\<forall>r\<in>set repos. language r \<noteq> None) \<longrightarrow>
     (\<exists>s. analyze_data repos = Inr (Some s)
        \<and> repo_count s = int (length repos)
        \<and> total_stars s = sum_list (map stargazers_count repos)
        \<and> total_forks s =
            sum_list (map (\<lambda>r. case forks_count r of None \<Rightarrow> 0 | Some f \<Rightarrow> f) repos)))"
proof -
  have "analyze_data [] = Inr None"
    by (simp add: analyze_data_def)
  moreover have "get_forks_count = (\<lambda>r. case forks_count r of None \<Rightarrow> 0 | Some f \<Rightarrow> f)"
    by (rule ext) (simp add: get_forks_count_def)
  ultimately show ?thesis
    by (auto simp: analyze_data_nonempty)
qed

text \<open>
  The theorem at the snapshot \<open>[ex_a, ex_b]\<close>: both records have the \<open>language\<close>
  key, \<open>ex_a\<close> has no \<open>forks_count\<close>, and the fork total is 7.
\<close>

theorem analyze_data_totals_witness:
  "[ex_a, ex_b] \<noteq> [] \<and> language ex_a \<noteq> None \<and> language ex_b \<noteq> None
   \<and> map_sum id (map_option repo_count) (analyze_data [ex_a, ex_b]) = Inr (Some 2)
   \<and> map_sum id (map_option total_stars) (analyze_data [ex_a, ex_b]) = Inr (Some 150)
   \<and> map_sum id (map_option total_forks) (analyze_data [ex_a, ex_b]) = Inr (Some 7)"
  using analyze_data_totals [of "[ex_a, ex_b]"]
  by (auto simp: ex_a_def ex_b_def)

text \<open>
  Claim C7 as stated fails: for the non-empty snapshot \<open>[ex_a, ex_nolang]\<close>, whose
  second record has no \<open>language\<close> key, \<open>analyze_data\<close> raises \<open>KeyError\<close> and
  returns no summary.
\<close>

theorem analyze_data_totals_counterexample:
  "analyze_data [ex_a, ex_nolang] = Inl KeyError"
  by (simp add: analyze_data_def language_list_def getitem_language_def ex_a_def ex_nolang_def)

text \<open>
  Claim C8, as the code has it. For a non-empty snapshot in which every record has the
  \<open>language\<close> key, the language histogram of the summary has one entry for each
  normalised language (\<open>null\<close> and the empty string normalised to \<open>N/A\<close>); the
  count of a language is the number of records with that normalised language, so every
  record whose language is \<open>null\<close> is counted under \<open>N/A\<close>; and the entries are in
  descending order of count.
\<close>

theorem analyze_data_language_stats:
  assumes "repos \<noteq> []" and "\<forall>r\<in>set repos. language r \<noteq> None"
  shows "\<exists>s. analyze_data repos = Inr (Some s)
      \<and> distinct (map fst (language_stats s))
      \<and> (\<forall>l. dict_get (language_stats s) l 0 =
                int (length (filter (\<lambda>r. or_na (the (language r)) = l) repos)))
      \<and> fst ` set (language_stats s) = (\<lambda>r. or_na (the (language r))) ` set repos
      \<and> int (length (filter (\<lambda>r. language r = Some Null) repos))
            \<le> dict_get (language_stats s) ''N/A'' 0
      \<and> sorted (rev (map snd (language_stats s)))"
proof -
  let ?norm = "\<lambda>r. or_na (the (language r))"
  let ?d = "Counter (map ?norm repos)"
  have get: "dict_get (most_common ?d) l 0 = int (length (filter (\<lambda>r. ?norm r = l) repos))" for l
    by (simp add: most_common_get Counter_distinct Counter_get filter_map comp_def)
  have "length (filter (\<lambda>r. language r = Some Null) repos)
          \<le> length (filter (\<lambda>r. ?norm r = ''N/A'') repos)"
  proof -
    have "filter (\<lambda>r. language r = Some Null) repos
            = filter (\<lambda>r. language r = Some Null) (filter (\<lambda>r. ?norm r = ''N/A'') repos)"
      by (auto intro!: filter_cong)
    then show ?thesis
      by (metis length_filter_le)
  qed
  then have na: "int (length (filter (\<lambda>r. language r = Some Null) repos))
                   \<le> dict_get (most_common ?d) ''N/A'' 0"
    by (simp add: get)
  have dist: "distinct (map fst (most_common ?d))"
    by (simp add: most_common_def sorted_reverse_distinct_map Counter_distinct)
  have keys: "fst ` set (most_common ?d) = ?norm ` set repos"
    by (simp add: most_common_def sorted_reverse_set Counter_keys)
  have desc: "sorted (rev (map snd (most_common ?d)))"
    by (simp add: most_common_def sorted_reverse_desc)
  show ?thesis
    using get na dist keys desc by (simp add: analyze_data_nonempty [OF assms])
qed

text \<open>
  The theorem at the snapshot \<open>[ex_b, ex_a, ex_a]\<close>: the two records with a
  \<open>null\<close> language are counted under \<open>N/A\<close>, which comes first.
\<close>

theorem analyze_data_language_stats_witness:
  "[ex_b, ex_a, ex_a] \<noteq> [] \<and> language ex_a \<noteq> None \<and> language ex_b \<noteq> None
   \<and> map_sum id (map_option language_stats) (analyze_data [ex_b, ex_a, ex_a])
       = Inr (Some [(''N/A'', 2), (''Go'', 1)])"
  using analyze_data_language_stats [of "[ex_b, ex_a, ex_a]"]
  by (simp add: analyze_data_def language_list_def getitem_language_def most_common_def
      Counter_def sorted_reverse_def ex_a_def ex_b_def)

text \<open>
  Claim C8 as stated fails for a record whose language field is absent: it is not
  counted under \<open>N/A\<close>, \<open>analyze_data\<close> raises \<open>KeyError\<close>.
\<close>

theorem analyze_data_language_stats_counterexample:
  "analyze_data [ex_nolang] = Inl KeyError"
  by (simp add: analyze_data_def language_list_def getitem_language_def ex_nolang_def)

section \<open>The comparison in closed form\<close>


lemma percentage_eq:
  "percentage change prev =
     Inr (if prev \<noteq> 0 then Finite (of_int change / of_int prev * 100) else PosInf)"
  by (simp add: percentage_def truediv_def)

lemma format_change_eq:
  "format_change p c = Inr (ChangeLine p c (c - p) (pct_of (c - p) p))"
  by (simp add: format_change_def percentage_eq percentage_str_def pct_of_def)

lemma language_loop:
  "for_each (language_step pa ca) ls printed =
     Inr (printed @ map (lang_line_of pa ca)
            (filter (\<lambda>l. dict_get (language_stats pa) l 0 \<noteq> dict_get (language_stats ca) l 0) ls))"
  by (induction ls arbitrary: printed)
     (simp_all add: language_step_def percentage_eq percentage_str_def lang_line_of_def
        pct_of_def Let_def)

lemma language_changes_eq:
  "language_changes pa ca =
     Inr (map (lang_line_of pa ca)
            (filter (\<lambda>l. dict_get (language_stats pa) l 0 \<noteq> dict_get (language_stats ca) l 0)
               (sorted_list_of_set (all_langs pa ca))))"
  by (simp add: language_changes_def language_loop)

lemma enumerate_from_snoc:
  "enumerate_from k (xs @ [x]) = enumerate_from k xs @ [(k + int (length xs), x)]"
  by (induction xs arbitrary: k) (simp_all add: algebra_simps)

lemma index_of_Nil: "index_of h [] = Map.empty"
  by (simp add: index_of_def)

lemma index_of_snoc:
  "index_of h (xs @ [a]) =
     (index_of h xs)(full_name (h a) \<mapsto> Entry (int (length xs) + 1) (stargazers_count (h a)))"
  by (simp add: index_of_def enumerate_from_snoc add.commute)

lemma dom_index_of: "dom (index_of h xs) = (\<lambda>a. full_name (h a)) ` set xs"
proof (induction xs rule: rev_induct)
  case Nil
  then show ?case by (simp add: index_of_Nil)
next
  case (snoc a xs)
  have "dom (index_of h (xs @ [a])) = insert (full_name (h a)) (dom (index_of h xs))"
    by (simp add: index_of_snoc)
  with snoc show ?case by auto
qed



lemma rank_step_eq:
  assumes "full_name (h a) \<in> dom pd \<longrightarrow> full_name (h a) \<in> dom cd"
      and "full_name (hh a) = full_name (h a)"
  shows "rank_step pd cd a (acc, hh) =
     Inr (if rank_moved pd cd h a
          then (acc @ [rank_change_of pd cd h a],
                hh(a := (hh a)\<lparr>prev_stars := Some (stars (the (pd (full_name (h a)))))\<rparr>))
          else (acc, hh))"
  using assms
  by (auto simp: rank_step_def rank_moved_def rank_change_of_def getitem_def Let_def dom_def
           split: option.splits)

lemma rank_loop:
  assumes "\<forall>a\<in>set as. full_name (h a) \<in> dom pd \<longrightarrow> full_name (h a) \<in> dom cd"
      and "\<forall>a. full_name (hh a) = full_name (h a)"
  shows "for_each (rank_step pd cd) as (acc, hh) =
           Inr (acc @ map (rank_change_of pd cd h) (filter (rank_moved pd cd h) as),
                heap_after pd cd h as hh)"
  using assms
proof (induction as arbitrary: acc hh)
  case Nil
  then show ?case by (simp add: heap_after_def)
next
  case (Cons a as)
  have step: "rank_step pd cd a (acc, hh) =
     Inr (if rank_moved pd cd h a
          then (acc @ [rank_change_of pd cd h a],
                hh(a := (hh a)\<lparr>prev_stars := Some (stars (the (pd (full_name (h a)))))\<rparr>))
          else (acc, hh))"
    using Cons.prems by (intro rank_step_eq) auto
  show ?case
  proof (cases "rank_moved pd cd h a")
    case True
    let ?hh = "hh(a := (hh a)\<lparr>prev_stars := Some (stars (the (pd (full_name (h a)))))\<rparr>)"
    have names: "\<forall>b. full_name (?hh b) = full_name (h b)"
      using Cons.prems(2) by simp
    have "for_each (rank_step pd cd) as (acc @ [rank_change_of pd cd h a], ?hh) =
            Inr ((acc @ [rank_change_of pd cd h a])
                   @ map (rank_change_of pd cd h) (filter (rank_moved pd cd h) as),
                 heap_after pd cd h as ?hh)"
      using Cons.prems(1) names by (intro Cons.IH) auto
    moreover have "heap_after pd cd h as ?hh = heap_after pd cd h (a # as) hh"
      using True by (auto simp: heap_after_def fun_eq_iff)
    ultimately show ?thesis
      using True step by simp
  next
    case False
    have "for_each (rank_step pd cd) as (acc, hh) =
            Inr (acc @ map (rank_change_of pd cd h) (filter (rank_moved pd cd h) as),
                 heap_after pd cd h as hh)"
      using Cons.prems by (intro Cons.IH) auto
    moreover have "heap_after pd cd h as hh = heap_after pd cd h (a # as) hh"
      using False by (auto simp: heap_after_def fun_eq_iff)
    ultimately show ?thesis
      using False step by simp
  qed
qed

lemma collect_rank_changes_eq:
  "collect_rank_changes (index_of h prevs) (index_of h currs) h currs =
     Inr (map (rank_change_of (index_of h prevs) (index_of h currs) h)
            (filter (rank_moved (index_of h prevs) (index_of h currs) h) currs),
          heap_after (index_of h prevs) (index_of h currs) h currs h)"
  unfolding collect_rank_changes_def
  by (rule rank_loop [where acc = "[]", simplified]) (auto simp: dom_index_of)

lemma rank_lines_eq:
  assumes "set xs \<subseteq> set (map (rank_change_of pd cd h) (filter (rank_moved pd cd h) as))"
  shows "comprehension (rank_line_of (heap_after pd cd h as h)) xs =
           Inr (map (rank_line_closed pd h) xs)"
proof (rule comprehension_total)
  fix x assume "x \<in> set xs"
  with assms obtain a where a: "a \<in> set as" "rank_moved pd cd h a" "x = rank_change_of pd cd h a"
    by auto
  then show "rank_line_of (heap_after pd cd h as h) x = Inr (rank_line_closed pd h x)"
    by (simp add: rank_line_of_def rank_line_closed_def rank_change_of_def heap_after_def Let_def
        percentage_eq percentage_str_def pct_of_def)
qed

lemma new_lines_eq:
  "comprehension (new_line_of (index_of h currs) h) (new_projects pd h currs) =
     Inr (map (\<lambda>a. NewLine (rank (the (index_of h currs (full_name (h a))))) (name (h a))
                     (stargazers_count (h a)))
            (new_projects pd h currs))"
proof (rule comprehension_total)
  fix a assume "a \<in> set (new_projects pd h currs)"
  then have "a \<in> set currs" by (simp add: new_projects_def)
  then have "full_name (h a) \<in> dom (index_of h currs)" by (auto simp: dom_index_of)
  then show "new_line_of (index_of h currs) h a =
     Inr (NewLine (rank (the (index_of h currs (full_name (h a))))) (name (h a))
            (stargazers_count (h a)))"
    by (auto simp: new_line_of_def getitem_def)
qed

lemma compare_trends_eq:
  "compare_trends pa ca h prevs currs =
     Inr (\<lparr> stars_line = ChangeLine (total_stars pa) (total_stars ca)
                           (total_stars ca - total_stars pa)
                           (pct_of (total_stars ca - total_stars pa) (total_stars pa)),
             forks_line = ChangeLine (total_forks pa) (total_forks ca)
                           (total_forks ca - total_forks pa)
                           (pct_of (total_forks ca - total_forks pa) (total_forks pa)),
             language_lines =
               map (lang_line_of pa ca)
                 (filter (\<lambda>l. dict_get (language_stats pa) l 0 \<noteq> dict_get (language_stats ca) l 0)
                    (sorted_list_of_set (all_langs pa ca))),
             new_lines =
               map (\<lambda>a. NewLine (rank (the (index_of h currs (full_name (h a))))) (name (h a))
                          (stargazers_count (h a)))
                 (new_projects (index_of h prevs) h currs),
             rank_lines =
               map (rank_line_closed (index_of h prevs) h)
                 (sorted_reverse abs_change
                    (map (rank_change_of (index_of h prevs) (index_of h currs) h)
                       (filter (rank_moved (index_of h prevs) (index_of h currs) h) currs))) \<rparr>,
          heap_after (index_of h prevs) (index_of h currs) h currs h)"
proof -
  have rl: "comprehension (rank_line_of (heap_after (index_of h prevs) (index_of h currs) h currs h))
              (sorted_reverse abs_change
                 (map (rank_change_of (index_of h prevs) (index_of h currs) h)
                    (filter (rank_moved (index_of h prevs) (index_of h currs) h) currs))) =
            Inr (map (rank_line_closed (index_of h prevs) h)
                   (sorted_reverse abs_change
                      (map (rank_change_of (index_of h prevs) (index_of h currs) h)
                         (filter (rank_moved (index_of h prevs) (index_of h currs) h) currs))))"
    by (rule rank_lines_eq) (simp add: sorted_reverse_def)
  show ?thesis
    unfolding compare_trends_def
    by (simp add: format_change_eq language_changes_eq new_lines_eq collect_rank_changes_eq rl
        Let_def)
qed

lemma compare_trends_fields:
  obtains rep h' where
    "compare_trends pa ca h prevs currs = Inr (rep, h')"
    "stars_line rep =
       ChangeLine (total_stars pa) (total_stars ca) (total_stars ca - total_stars pa)
         (pct_of (total_stars ca - total_stars pa) (total_stars pa))"
    "forks_line rep =
       ChangeLine (total_forks pa) (total_forks ca) (total_forks ca - total_forks pa)
         (pct_of (total_forks ca - total_forks pa) (total_forks pa))"
    "language_lines rep =
       map (lang_line_of pa ca)
         (filter (\<lambda>l. dict_get (language_stats pa) l 0 \<noteq> dict_get (language_stats ca) l 0)
            (sorted_list_of_set (all_langs pa ca)))"
    "new_lines rep =
       map (\<lambda>a. NewLine (rank (the (index_of h currs (full_name (h a))))) (name (h a))
                  (stargazers_count (h a)))
         (new_projects (index_of h prevs) h currs)"
    "rank_lines rep =
       map (rank_line_closed (index_of h prevs) h)
         (sorted_reverse abs_change
            (map (rank_change_of (index_of h prevs) (index_of h currs) h)
               (filter (rank_moved (index_of h prevs) (index_of h currs) h) currs)))"
    "h' = heap_after (index_of h prevs) (index_of h currs) h currs h"
  by (rule that [OF compare_trends_eq]) simp_all

section \<open>The trend comparison\<close>

text \<open>
  The model run on the store \<open>ex_heap\<close>, with the previous snapshot \<open>[a, b]\<close>
  at the references 0 and 1 and the current snapshot \<open>[b, c]\<close> at 2 and 3: \<open>c\<close>
  is new at rank 2, \<open>b\<close> went from rank 2 to rank 1 with 60 percent more stars,
  and the record of \<open>b\<close> in the current list has gained \<open>prev_stars\<close>.
\<close>

lemma ex_compare_report:
  "map_sum id fst (compare_trends ex_zero_summary ex_curr_summary ex_heap [0, 1] [2, 3]) =
     Inr \<lparr> stars_line = ChangeLine 0 140 140 NA,
             forks_line = ChangeLine 0 9 9 NA,
             language_lines = [LangLine ''Rust'' 0 1 1 NA],
             new_lines = [NewLine 2 ''c'' 60],
             rank_lines = [RankLine True ''b'' 2 1 1 (Signed2f (Finite 60))] \<rparr>"
  by code_simp

lemma ex_compare_heap:
  "map_sum id (\<lambda>x. map (snd x) [0, 1, 2, 3])
      (compare_trends ex_zero_summary ex_curr_summary ex_heap [0, 1] [2, 3]) =
     Inr [ex_a, ex_b, ex_curr_b\<lparr>prev_stars := Some 50\<rparr>, ex_curr_c]"
  by code_simp

lemma ex_langs:
  "language_changes ex_prev_summary ex_curr_summary =
     Inr [LangLine ''N/A'' 1 0 (-1) (Signed2f (Finite (-100))), LangLine ''Rust'' 0 1 1 NA]"
  by code_simp





lemma rank_moved_self: "rank_moved d d h a = False"
  by (simp add: rank_moved_def split: option.splits)

text \<open>
  Claim C5. Comparing a snapshot (any list of records, with any summary) with itself
  gives star and fork changes of 0, no language line, no new project and no rank change,
  and leaves the store as it was.
\<close>

theorem compare_trends_self:
  "\<exists>rep. compare_trends a a h xs xs = Inr (rep, h)
     \<and> cl_change (stars_line rep) = 0 \<and> cl_change (forks_line rep) = 0
     \<and> language_lines rep = [] \<and> new_lines rep = [] \<and> rank_lines rep = []"
proof -
  obtain rep h' where res: "compare_trends a a h xs xs = Inr (rep, h')"
    and sl: "stars_line rep =
       ChangeLine (total_stars a) (total_stars a) (total_stars a - total_stars a)
         (pct_of (total_stars a - total_stars a) (total_stars a))"
    and fl: "forks_line rep =
       ChangeLine (total_forks a) (total_forks a) (total_forks a - total_forks a)
         (pct_of (total_forks a - total_forks a) (total_forks a))"
    and ll: "language_lines rep =
       map (lang_line_of a a)
         (filter (\<lambda>l. dict_get (language_stats a) l 0 \<noteq> dict_get (language_stats a) l 0)
            (sorted_list_of_set (all_langs a a)))"
    and nl: "new_lines rep =
       map (\<lambda>b. NewLine (rank (the (index_of h xs (full_name (h b))))) (name (h b))
                  (stargazers_count (h b)))
         (new_projects (index_of h xs) h xs)"
    and rl: "rank_lines rep =
       map (rank_line_closed (index_of h xs) h)
         (sorted_reverse abs_change
            (map (rank_change_of (index_of h xs) (index_of h xs) h)
               (filter (rank_moved (index_of h xs) (index_of h xs) h) xs)))"
    and h': "h' = heap_after (index_of h xs) (index_of h xs) h xs h"
    by (rule compare_trends_fields)
  have "h' = h"
    unfolding h' by (simp add: heap_after_def rank_moved_self)
  moreover have "new_projects (index_of h xs) h xs = []"
    by (auto simp: new_projects_def dom_index_of filter_empty_conv)
  then have "new_lines rep = []"
    by (simp add: nl)
  moreover have "rank_lines rep = []"
    by (simp add: rl rank_moved_self sorted_reverse_def)
  moreover have "language_lines rep = []"
    by (simp add: ll)
  moreover have "cl_change (stars_line rep) = 0" "cl_change (forks_line rep) = 0"
    by (simp_all add: sl fl)
  ultimately show ?thesis
    using res by blast
qed









lemma ex_rank_lines:
  "map_sum id (\<lambda>x. rank_lines (fst x))
      (compare_trends ex_prev_summary ex_curr_summary ex_heap [0, 1] [2, 3, 4])
     = Inr [RankLine False ''a'' 1 3 (- 2) (Signed2f (Finite (- 10))),
            RankLine True ''b'' 2 1 1 (Signed2f (Finite 60))]"
  by code_simp




section \<open>The closest snapshot\<close>

lemma ex_find: "find_comparison_file ex_strptime ex_now 7 ex_files = Some ''data/data_2025-07-24.json''"
  by code_simp

lemma us_per_day_pos: "0 < us_per_day"
  by (simp add: us_per_day_def)

lemma timedelta_days_of_date:
  "timedelta_days (target_date - day * us_per_day) = target_date div us_per_day - day"
proof -
  have "(target_date + (- day) * us_per_day) div us_per_day = - day + target_date div us_per_day"
    using us_per_day_pos by (intro div_mult_self1) simp
  then show ?thesis
    by (simp add: timedelta_days_def)
qed

lemma day_diff_eq: "int (day_diff target_date day) = \<bar>target_date div us_per_day - day\<bar>"
  by (simp add: day_diff_def timedelta_days_of_date)

lemma scan_step_eq:
  "scan_step strptime target_date file_path (c, m) =
     (case file_day strptime file_path of
        None \<Rightarrow> (c, m)
      | Some day \<Rightarrow>
          if enat (day_diff target_date day) < m
          then (Some file_path, enat (day_diff target_date day)) else (c, m))"
  by (simp add: scan_step_def file_day_def day_diff_def Let_def split: option.splits)

lemma closest_inv_Nil: "closest_inv strptime target_date [] (None, \<infinity>)"
  by (simp add: closest_inv_def)

lemma closest_inv_SomeI:
  assumes "i < length xs" "xs ! i = f" "file_day strptime f = Some d"
      and "m = enat (day_diff target_date d)"
      and "\<forall>j<length xs. \<forall>e. file_day strptime (xs ! j) = Some e \<longrightarrow>
              day_diff target_date d \<le> day_diff target_date e
              \<and> (j < i \<longrightarrow> day_diff target_date d < day_diff target_date e)"
  shows "closest_inv strptime target_date xs (Some f, m)"
  unfolding closest_inv_def prod.case option.case using assms by blast

lemma closest_inv_SomeE:
  assumes "closest_inv strptime target_date xs (Some f, m)"
  obtains i d where "i < length xs" "xs ! i = f" "file_day strptime f = Some d"
      "m = enat (day_diff target_date d)"
      "\<forall>j<length xs. \<forall>e. file_day strptime (xs ! j) = Some e \<longrightarrow>
              day_diff target_date d \<le> day_diff target_date e
              \<and> (j < i \<longrightarrow> day_diff target_date d < day_diff target_date e)"
  using assms unfolding closest_inv_def prod.case option.case by blast

lemma closest_inv_NoneD:
  assumes "closest_inv strptime target_date xs (None, m)"
  shows "m = \<infinity>" and "\<forall>f\<in>set xs. file_day strptime f = None"
  using assms unfolding closest_inv_def prod.case option.case by blast+

lemma closest_inv_step:
  assumes inv: "closest_inv strptime target_date xs (c, m)"
  shows "closest_inv strptime target_date (xs @ [x]) (scan_step strptime target_date x (c, m))"
proof (cases "file_day strptime x")
  case None
  then have step: "scan_step strptime target_date x (c, m) = (c, m)"
    by (simp add: scan_step_eq)
  have "closest_inv strptime target_date (xs @ [x]) (c, m)"
  proof (cases c)
    case c: None
    with inv None show ?thesis
      by (simp add: closest_inv_def)
  next
    case (Some f)
    with inv obtain i d where i: "i < length xs" "xs ! i = f"
      "file_day strptime f = Some d" "m = enat (day_diff target_date d)"
      "\<forall>j<length xs. \<forall>e. file_day strptime (xs ! j) = Some e \<longrightarrow>
          day_diff target_date d \<le> day_diff target_date e
          \<and> (j < i \<longrightarrow> day_diff target_date d < day_diff target_date e)"
      by (auto elim: closest_inv_SomeE)
    have all: "\<forall>j<length (xs @ [x]). \<forall>e. file_day strptime ((xs @ [x]) ! j) = Some e \<longrightarrow>
          day_diff target_date d \<le> day_diff target_date e
          \<and> (j < i \<longrightarrow> day_diff target_date d < day_diff target_date e)"
      using i(5) None by (auto simp: nth_append less_Suc_eq)
    have "i < length (xs @ [x])" "(xs @ [x]) ! i = f"
      using i(1,2) by (simp_all add: nth_append)
    with i(3,4) all show ?thesis
      unfolding Some by (rule closest_inv_SomeI [rotated 2])
  qed
  then show ?thesis by (simp only: step)
next
  case (Some e)
  show ?thesis
  proof (cases "enat (day_diff target_date e) < m")
    case True
    then have step: "scan_step strptime target_date x (c, m) =
                       (Some x, enat (day_diff target_date e))"
      by (simp add: scan_step_eq Some)
    have all: "\<forall>j<length (xs @ [x]). \<forall>e'. file_day strptime ((xs @ [x]) ! j) = Some e' \<longrightarrow>
          day_diff target_date e \<le> day_diff target_date e'
          \<and> (j < length xs \<longrightarrow> day_diff target_date e < day_diff target_date e')"
    proof (intro allI impI)
      fix j e' assume j: "j < length (xs @ [x])"
        and e': "file_day strptime ((xs @ [x]) ! j) = Some e'"
      show "day_diff target_date e \<le> day_diff target_date e'
          \<and> (j < length xs \<longrightarrow> day_diff target_date e < day_diff target_date e')"
      proof (cases "j < length xs")
        case False
        with j have "j = length xs" by simp
        with e' Some show ?thesis by simp
      next
        case jlt: True
        with e' have e'': "file_day strptime (xs ! j) = Some e'"
          by (simp add: nth_append)
        show ?thesis
        proof (cases c)
          case None
          with inv have "\<forall>f\<in>set xs. file_day strptime f = None"
            by (auto dest: closest_inv_NoneD)
          with jlt e'' show ?thesis by auto
        next
          case c: (Some f)
          with inv obtain d where d: "m = enat (day_diff target_date d)"
            "\<forall>j<length xs. \<forall>e. file_day strptime (xs ! j) = Some e \<longrightarrow>
                day_diff target_date d \<le> day_diff target_date e"
            by (auto elim!: closest_inv_SomeE)
          from d(2) jlt e'' have "day_diff target_date d \<le> day_diff target_date e'"
            by blast
          moreover from True d(1) have "day_diff target_date e < day_diff target_date d"
            by simp
          ultimately show ?thesis using jlt by simp
        qed
      qed
    qed
    have "length xs < length (xs @ [x])" "(xs @ [x]) ! length xs = x"
      by simp_all
    then have "closest_inv strptime target_date (xs @ [x])
                          (Some x, enat (day_diff target_date e))"
      using Some all by (intro closest_inv_SomeI [where i = "length xs" and d = e]) auto
    then show ?thesis by (simp only: step)
  next
    case False
    then have step: "scan_step strptime target_date x (c, m) = (c, m)"
      by (simp add: scan_step_eq Some)
    from False have "m \<noteq> \<infinity>" by (cases m) simp_all
    with inv obtain f where c: "c = Some f"
      by (cases c) (auto dest: closest_inv_NoneD)
    with inv obtain i d where i: "i < length xs" "xs ! i = f"
      "file_day strptime f = Some d" "m = enat (day_diff target_date d)"
      "\<forall>j<length xs. \<forall>e. file_day strptime (xs ! j) = Some e \<longrightarrow>
          day_diff target_date d \<le> day_diff target_date e
          \<and> (j < i \<longrightarrow> day_diff target_date d < day_diff target_date e)"
      by (auto elim: closest_inv_SomeE)
    from False i(4) have le: "day_diff target_date d \<le> day_diff target_date e"
      by simp
    have all: "\<forall>j<length (xs @ [x]). \<forall>e'. file_day strptime ((xs @ [x]) ! j) = Some e' \<longrightarrow>
          day_diff target_date d \<le> day_diff target_date e'
          \<and> (j < i \<longrightarrow> day_diff target_date d < day_diff target_date e')"
      using i(1,5) le Some by (auto simp: nth_append less_Suc_eq)
    have "i < length (xs @ [x])" "(xs @ [x]) ! i = f"
      using i(1,2) by (simp_all add: nth_append)
    with i(3,4) all have "closest_inv strptime target_date (xs @ [x]) (c, m)"
      unfolding c by (rule closest_inv_SomeI [rotated 2])
    then show ?thesis by (simp only: step)
  qed
qed

lemma closest_inv_foldl:
  "closest_inv strptime target_date files
     (foldl (\<lambda>s file_path. scan_step strptime target_date file_path s) (None, \<infinity>) files)"
proof (induction files rule: rev_induct)
  case Nil
  show ?case by (simp add: closest_inv_Nil)
next
  case (snoc x xs)
  obtain c m where cm:
    "foldl (\<lambda>s file_path. scan_step strptime target_date file_path s) (None, \<infinity>) xs = (c, m)"
    by (cases "foldl (\<lambda>s file_path. scan_step strptime target_date file_path s) (None, \<infinity>) xs")
  with snoc show ?case
    by (simp add: closest_inv_step)
qed

lemma find_comparison_file_eq:
  "find_comparison_file strptime now days_ago files =
     (case foldl (\<lambda>s file_path. scan_step strptime (now - days_ago * us_per_day) file_path s)
             (None, \<infinity>) files of
        (closest_file, min_diff) \<Rightarrow> if min_diff \<le> 2 then closest_file else None)"
  by (simp add: find_comparison_file_def Let_def)

lemma day_diff_le_iff:
  "day_diff t d \<le> day_diff t e \<longleftrightarrow> \<bar>t div us_per_day - d\<bar> \<le> \<bar>t div us_per_day - e\<bar>"
  using day_diff_eq [of t d] day_diff_eq [of t e] by linarith

lemma day_diff_less_iff:
  "day_diff t d < day_diff t e \<longleftrightarrow> \<bar>t div us_per_day - d\<bar> < \<bar>t div us_per_day - e\<bar>"
  using day_diff_eq [of t d] day_diff_eq [of t e] by linarith

lemma day_diff_le_2: "enat (day_diff t d) \<le> 2 \<longleftrightarrow> \<bar>t div us_per_day - d\<bar> \<le> 2"
proof -
  have "enat (day_diff t d) \<le> 2 \<longleftrightarrow> day_diff t d \<le> 2"
    by (metis enat_ord_simps(1) numeral_eq_enat)
  then show ?thesis
    using day_diff_eq [of t d] by linarith
qed

lemma foldl_unparseable:
  assumes "\<forall>f\<in>set files. file_day strptime f = None"
  shows "foldl (\<lambda>s file_path. scan_step strptime target_date file_path s) (c, m) files = (c, m)"
  using assms by (induction files) (simp_all add: scan_step_eq)

text \<open>
  Claim C10. When \<open>strptime\<close> raises \<open>ValueError\<close> for the date part of
  every file the listing returns, the loop leaves \<open>closest_file\<close> at \<open>None\<close>
  and \<open>min_diff\<close> at infinity, and \<open>find_comparison_file\<close> returns \<open>None\<close>;
  it raises nothing.
\<close>

theorem find_comparison_file_unparseable:
  assumes "\<forall>f\<in>set files. strptime (date_str_of (basename f)) = None"
  shows "foldl (\<lambda>s file_path. scan_step strptime (now - days_ago * us_per_day) file_path s)
           (None, \<infinity>) files = (None, \<infinity>)
       \<and> find_comparison_file strptime now days_ago files = None"
proof -
  from assms have "\<forall>f\<in>set files. file_day strptime f = None"
    by (simp add: file_day_def)
  then have "foldl (\<lambda>s file_path. scan_step strptime (now - days_ago * us_per_day) file_path s)
           (None, \<infinity>) files = (None, \<infinity>)"
    by (rule foldl_unparseable)
  then show ?thesis
    by (simp add: find_comparison_file_eq)
qed

text \<open>
  The theorem at a listing of two files that match \<open>data_*.json\<close> and carry no
  date the example \<open>strptime\<close> accepts.
\<close>

lemma ex_unparseable:
  "ex_strptime (date_str_of (basename ''data/data_notes.json'')) = None
   \<and> ex_strptime (date_str_of (basename ''data/data_2025-13-40.json'')) = None"
  by code_simp

theorem find_comparison_file_unparseable_witness:
  "ex_strptime (date_str_of (basename ''data/data_notes.json'')) = None
   \<and> ex_strptime (date_str_of (basename ''data/data_2025-13-40.json'')) = None
   \<and> find_comparison_file ex_strptime ex_now 7
        [''data/data_notes.json'', ''data/data_2025-13-40.json''] = None"
  using find_comparison_file_unparseable
    [of "[''data/data_notes.json'', ''data/data_2025-13-40.json'']" ex_strptime ex_now 7]
    ex_unparseable
  by simp

text \<open>
  Claim C6. Let \<open>T\<close> be the calendar day of the target date
  \<open>now - days_ago\<close>. The difference computed for a file whose date part parses to
  day \<open>d\<close> is \<open>\<bar>T - d\<bar>\<close>; files whose date part does not parse are skipped.
  \<open>find_comparison_file\<close> returns a file exactly when that file is the first in
  the listing among the parsable files of least difference and its difference is at
  most 2; it returns \<open>None\<close> exactly when no parsable file has a difference of at
  most 2. It always returns, and raises nothing.
\<close>

theorem find_comparison_file_closest:
  fixes strptime :: "string \<Rightarrow> int option" and now days_ago :: int and files :: "string list"
  defines "T \<equiv> (now - days_ago * us_per_day) div us_per_day"
  shows "(find_comparison_file strptime now days_ago files = Some f \<longleftrightarrow>
            (\<exists>i<length files. \<exists>d. files ! i = f
                \<and> strptime (date_str_of (basename f)) = Some d
                \<and> \<bar>T - d\<bar> \<le> 2
                \<and> (\<forall>j<length files. \<forall>e.
                      strptime (date_str_of (basename (files ! j))) = Some e \<longrightarrow>
                        \<bar>T - d\<bar> \<le> \<bar>T - e\<bar> \<and> (j < i \<longrightarrow> \<bar>T - d\<bar> < \<bar>T - e\<bar>))))
       \<and> (find_comparison_file strptime now days_ago files = None \<longleftrightarrow>
            (\<forall>g\<in>set files. \<forall>e.
                strptime (date_str_of (basename g)) = Some e \<longrightarrow> 2 < \<bar>T - e\<bar>))"
proof -
  let ?t = "now - days_ago * us_per_day"
  let ?P = "\<lambda>f. \<exists>i<length files. \<exists>d. files ! i = f
                \<and> file_day strptime f = Some d
                \<and> \<bar>T - d\<bar> \<le> 2
                \<and> (\<forall>j<length files. \<forall>e. file_day strptime (files ! j) = Some e \<longrightarrow>
                        \<bar>T - d\<bar> \<le> \<bar>T - e\<bar> \<and> (j < i \<longrightarrow> \<bar>T - d\<bar> < \<bar>T - e\<bar>))"
  let ?Q = "\<forall>g\<in>set files. \<forall>e. file_day strptime g = Some e \<longrightarrow> 2 < \<bar>T - e\<bar>"
  obtain c m where cm:
    "foldl (\<lambda>s file_path. scan_step strptime ?t file_path s) (None, \<infinity>) files = (c, m)"
    by (cases "foldl (\<lambda>s file_path. scan_step strptime ?t file_path s) (None, \<infinity>) files")
  have inv: "closest_inv strptime ?t files (c, m)"
    using closest_inv_foldl [of strptime ?t files] by (simp add: cm)
  have res: "find_comparison_file strptime now days_ago files = (if m \<le> 2 then c else None)"
    by (simp add: find_comparison_file_eq cm)
  have goal: "(find_comparison_file strptime now days_ago files = Some f \<longleftrightarrow> ?P f)
      \<and> (find_comparison_file strptime now days_ago files = None \<longleftrightarrow> ?Q)"
  proof (cases c)
    case None
    from closest_inv_NoneD [OF inv [unfolded None]]
    have unp: "\<forall>f\<in>set files. file_day strptime f = None" by simp
    have "\<not> ?P f"
    proof
      assume "?P f"
      then obtain i where "i < length files" "files ! i = f" "file_day strptime f \<noteq> None"
        by auto
      with unp show False by (metis nth_mem)
    qed
    moreover have ?Q using unp by simp
    ultimately show ?thesis by (simp add: res None)
  next
    case (Some f')
    from inv obtain i' d' where i': "i' < length files" "files ! i' = f'"
      "file_day strptime f' = Some d'" "m = enat (day_diff ?t d')"
      "\<forall>j<length files. \<forall>e. file_day strptime (files ! j) = Some e \<longrightarrow>
          day_diff ?t d' \<le> day_diff ?t e \<and> (j < i' \<longrightarrow> day_diff ?t d' < day_diff ?t e)"
      unfolding Some by (rule closest_inv_SomeE)
    have min': "\<forall>j<length files. \<forall>e. file_day strptime (files ! j) = Some e \<longrightarrow>
          \<bar>T - d'\<bar> \<le> \<bar>T - e\<bar> \<and> (j < i' \<longrightarrow> \<bar>T - d'\<bar> < \<bar>T - e\<bar>)"
      using i'(5) by (simp add: day_diff_le_iff day_diff_less_iff T_def)
    have m2: "m \<le> 2 \<longleftrightarrow> \<bar>T - d'\<bar> \<le> 2"
      by (simp add: i'(4) day_diff_le_2 T_def)
    show ?thesis
    proof (cases "m \<le> 2")
      case True
      have "?P f \<longleftrightarrow> f = f'"
      proof
        assume "?P f"
        then obtain i d where i: "i < length files" "files ! i = f"
          "file_day strptime f = Some d"
          "\<forall>j<length files. \<forall>e. file_day strptime (files ! j) = Some e \<longrightarrow>
              \<bar>T - d\<bar> \<le> \<bar>T - e\<bar> \<and> (j < i \<longrightarrow> \<bar>T - d\<bar> < \<bar>T - e\<bar>)"
          by blast
        from i(4) i'(1,2,3) have a: "\<bar>T - d\<bar> \<le> \<bar>T - d'\<bar>" "i' < i \<longrightarrow> \<bar>T - d\<bar> < \<bar>T - d'\<bar>"
          by blast+
        from min' i(1,2,3) have b: "\<bar>T - d'\<bar> \<le> \<bar>T - d\<bar>" "i < i' \<longrightarrow> \<bar>T - d'\<bar> < \<bar>T - d\<bar>"
          by blast+
        from a b have "i = i'" by (cases i i' rule: linorder_cases) auto
        with i(2) i'(2) show "f = f'" by simp
      next
        assume "f = f'"
        with i'(1,2,3) min' m2 True show "?P f" by blast
      qed
      moreover have "\<not> ?Q"
        using i'(1,2,3) m2 True by (metis nth_mem not_less)
      ultimately show ?thesis
        using True by (auto simp: res Some)
    next
      case False
      with m2 have far: "2 < \<bar>T - d'\<bar>" by simp
      have ?Q
      proof (intro ballI allI impI)
        fix g e assume "g \<in> set files" "file_day strptime g = Some e"
        then obtain j where "j < length files" "file_day strptime (files ! j) = Some e"
          by (auto simp: in_set_conv_nth)
        with min' have "\<bar>T - d'\<bar> \<le> \<bar>T - e\<bar>" by blast
        with far show "2 < \<bar>T - e\<bar>" by simp
      qed
      moreover have "\<not> ?P f"
      proof
        assume "?P f"
        then obtain i d where i: "i < length files" "files ! i = f"
          "file_day strptime f = Some d" "\<bar>T - d\<bar> \<le> 2"
          by blast
        with min' have "\<bar>T - d'\<bar> \<le> \<bar>T - d\<bar>" by blast
        with far i(4) show False by simp
      qed
      ultimately show ?thesis
        using False by (simp add: res)
    qed
  qed
  then show ?thesis
    by (simp add: file_day_def)
qed

text \<open>
  The theorem at the example listing, 7 days before 2025-07-30 15:48:57: the files of
  2025-07-24 and 2025-07-22 are both one day from the target, and the one listed first
  is returned; the file without a date is skipped.
\<close>

theorem find_comparison_file_closest_witness:
  "find_comparison_file ex_strptime ex_now 7 ex_files = Some ''data/data_2025-07-24.json''
   \<and> find_comparison_file ex_strptime ex_now 7 ex_files \<noteq> None"
  using find_comparison_file_closest [of ex_strptime ex_now 7 ex_files "''data/data_2025-07-24.json''"]
    ex_find
  by simp

text \<open>Two days before the same clock reading no file is within 2 days.\<close>

lemma ex_too_far: "find_comparison_file ex_strptime ex_now 2 ex_files = None"
  by code_simp


section \<open>The printed percentage\<close>

lemma round_half_even_bound: "\<bar>of_int (round_half_even y) - y\<bar> \<le> 1 / 2"
proof -
  have "of_int \<lfloor>y\<rfloor> \<le> y" "y < of_int \<lfloor>y\<rfloor> + 1"
    by linarith+
  then show ?thesis
    unfolding round_half_even_def Let_def by (auto simp: abs_le_iff)
qed


lemma two_powi_pos: "0 < (2::rat) powi k"
  by simp

lemma of_int_bitlen_bounds:
  assumes "0 < a"
  shows "(2::rat) powi (bitlen a - 1) \<le> of_int a" and "of_int a < (2::rat) powi bitlen a"
proof -
  from bitlen_bounds [OF assms]
  have lo: "2 ^ nat (bitlen a - 1) \<le> a" and hi: "a < 2 ^ nat (bitlen a)"
    by simp_all
  have pos: "1 \<le> bitlen a"
    using assms bitlen_eq_zero_iff [of a] bitlen_nonneg [of a] by (cases "bitlen a = 0") auto
  have "(2::rat) powi (bitlen a - 1) = of_int (2 ^ nat (bitlen a - 1))"
    using pos by (simp add: power_int_def)
  also have "\<dots> \<le> of_int a"
    using lo by (simp only: of_int_le_iff)
  finally show "(2::rat) powi (bitlen a - 1) \<le> of_int a" .
  have "(of_int a :: rat) < of_int (2 ^ nat (bitlen a))"
    using hi by (simp only: of_int_less_iff)
  also have "\<dots> = (2::rat) powi bitlen a"
    using pos by (simp add: power_int_def)
  finally show "of_int a < (2::rat) powi bitlen a" .
qed

lemma ilog2_bounds:
  assumes "0 < m"
  shows "2 powi ilog2 m \<le> m" and "m < 2 powi (ilog2 m + 1)"
proof -
  obtain a b where ab: "quotient_of m = (a, b)"
    by (cases "quotient_of m")
  have b: "0 < b" using ab by (rule quotient_of_denom_pos)
  have m: "m = of_int a / of_int b" using ab by (rule quotient_of_div)
  have a: "0 < a"
    using assms b unfolding m by (simp add: zero_less_divide_iff)
  let ?d = "bitlen a - bitlen b"
  have "m < 2 powi bitlen a / 2 powi (bitlen b - 1)"
    unfolding m
    using of_int_bitlen_bounds [OF a] of_int_bitlen_bounds [OF b] a b
    by (intro frac_less) simp_all
  also have "\<dots> = 2 powi (?d + 1)"
    by (simp add: power_int_diff [symmetric] algebra_simps)
  finally have hi: "m < 2 powi (?d + 1)" .
  have "2 powi (bitlen a - 1) / 2 powi bitlen b < m"
    unfolding m
    using of_int_bitlen_bounds [OF a] of_int_bitlen_bounds [OF b] a b
    by (intro frac_less2) simp_all
  moreover have "2 powi (bitlen a - 1) / 2 powi bitlen b = (2::rat) powi (?d - 1)"
    by (simp add: power_int_diff [symmetric] algebra_simps)
  ultimately have lo: "2 powi (?d - 1) < m" by simp
  have il: "ilog2 m = (if 2 powi ?d \<le> m then ?d else ?d - 1)"
    by (simp add: ilog2_def ab Let_def)
  show "2 powi ilog2 m \<le> m"
    using lo by (simp add: il less_imp_le)
  show "m < 2 powi (ilog2 m + 1)"
    using hi by (auto simp: il not_le)
qed

lemma ilog2_less:
  assumes "0 < m" "m < 2 powi k"
  shows "ilog2 m < k"
proof -
  have "(2::rat) powi ilog2 m < 2 powi k"
    using ilog2_bounds(1) [OF assms(1)] assms(2) by simp
  then show ?thesis
    by (metis (no_types) less_le_not_le linorder_not_le one_less_numeral_iff
        power_int_increasing less_imp_le semiring_norm(76))
qed

lemma ilog2_ge:
  assumes "0 < m" "2 powi k \<le> m"
  shows "k \<le> ilog2 m"
proof -
  have "(2::rat) powi k < 2 powi (ilog2 m + 1)"
    using ilog2_bounds(2) [OF assms(1)] assms(2) by simp
  then have "k < ilog2 m + 1"
    by (metis (no_types) less_le_not_le linorder_not_le one_less_numeral_iff
        power_int_increasing less_imp_le semiring_norm(76))
  then show ?thesis by simp
qed


lemma round_double_SomeI:
  assumes "m \<noteq> 0"
      and "of_int (round_half_even (m / 2 powi (max (ilog2 m) dbl_min_exp - 52)))
             * 2 powi (max (ilog2 m) dbl_min_exp - 52) = r"
      and "r \<noteq> 0" and "ilog2 r < dbl_max_exp"
  shows "round_double m = Some r"
  unfolding round_double_def Let_def assms(2) using assms(1,3,4) by simp

lemma round_double_normal:
  assumes lo: "2 powi dbl_min_exp \<le> m" and hi: "m < 2 powi (dbl_max_exp - 1)"
  shows "\<exists>r. round_double m = Some r \<and> \<bar>r - m\<bar> \<le> m / 2 ^ 53"
proof -
  have mpos: "0 < m"
    using lo two_powi_pos [of dbl_min_exp] by linarith
  define e where "e = ilog2 m"
  have e_lo: "2 powi e \<le> m"
    unfolding e_def using mpos by (rule ilog2_bounds)
  have "dbl_min_exp \<le> e"
    unfolding e_def using mpos lo by (rule ilog2_ge)
  then have max_e: "max e dbl_min_exp = e" by simp
  define q where "q = (2::rat) powi (e - 52)"
  have qpos: "0 < q" by (simp add: q_def)
  have q_eq: "q = 2 powi e / 2 ^ 52"
    unfolding q_def by (simp add: power_int_diff)
  define k where "k = round_half_even (m / q)"
  define r where "r = of_int k * q"
  have "r - m = q * (of_int k - m / q)"
    using qpos by (simp add: r_def field_simps)
  then have "\<bar>r - m\<bar> = q * \<bar>of_int k - m / q\<bar>"
    using qpos by (simp add: abs_mult)
  also have "\<dots> \<le> q * (1 / 2)"
    using qpos round_half_even_bound [of "m / q"] unfolding k_def
    by (intro mult_left_mono) simp_all
  also have "\<dots> = 2 powi e / 2 ^ 53"
    by (simp add: q_eq)
  also have "\<dots> \<le> m / 2 ^ 53"
    using e_lo by (simp add: divide_right_mono)
  finally have err: "\<bar>r - m\<bar> \<le> m / 2 ^ 53" .
  have small: "m / 2 ^ 53 < m"
    using mpos by (simp add: field_simps)
  have rpos: "0 < r"
    using err small by linarith
  have "r < 2 * m"
    using err small by linarith
  also have "\<dots> < 2 * 2 powi (dbl_max_exp - 1)"
    using hi by simp
  also have "\<dots> = 2 powi dbl_max_exp"
    using power_int_add_1' [of "2::rat" "dbl_max_exp - 1"] by simp
  finally have "ilog2 r < dbl_max_exp"
    using rpos by (intro ilog2_less)
  moreover have "of_int (round_half_even (m / 2 powi (max (ilog2 m) dbl_min_exp - 52)))
                   * 2 powi (max (ilog2 m) dbl_min_exp - 52) = r"
    using max_e by (simp add: r_def k_def q_def e_def)
  ultimately have "round_double m = Some r"
    using mpos rpos by (intro round_double_SomeI) simp_all
  with err show ?thesis by blast
qed








text \<open>
  Beyond the range of the theorem: a quotient of \<open>2 ^ 1024\<close> or more raises
  \<open>OverflowError\<close>, and a quotient whose hundredfold is that large prints as an
  infinity.
\<close>

lemma round_half_even_ge_floor: "\<lfloor>y\<rfloor> \<le> round_half_even y"
  unfolding round_half_even_def Let_def by auto

lemma round_double_overflow:
  assumes "2 powi dbl_max_exp \<le> m"
  shows "round_double m = None"
proof -
  have mpos: "0 < m"
    using assms two_powi_pos [of dbl_max_exp] by linarith
  define e where "e = ilog2 m"
  have e_lo: "2 powi e \<le> m"
    unfolding e_def using mpos by (rule ilog2_bounds)
  have e_big: "dbl_max_exp \<le> e"
    unfolding e_def using mpos assms by (rule ilog2_ge)
  then have max_e: "max e dbl_min_exp = e"
    by (simp add: dbl_max_exp_def dbl_min_exp_def)
  define q where "q = (2::rat) powi (e - 52)"
  have qpos: "0 < q" by (simp add: q_def)
  have q_eq: "q * 2 ^ 52 = 2 powi e"
    unfolding q_def by (simp add: power_int_diff)
  define k where "k = round_half_even (m / q)"
  have "(2::rat) ^ 52 \<le> m / q"
    using e_lo qpos q_eq by (simp add: field_simps)
  then have "(of_int (2 ^ 52) :: rat) \<le> m / q" by simp
  then have "2 ^ 52 \<le> \<lfloor>m / q\<rfloor>"
    by (simp only: le_floor_iff)
  then have "2 ^ 52 \<le> k"
    unfolding k_def using round_half_even_ge_floor [of "m / q"] by linarith
  then have "(2::rat) ^ 52 \<le> of_int k"
    by (metis of_int_le_iff of_int_numeral of_int_power)
  then have "2 ^ 52 * q \<le> of_int k * q"
    using qpos by (intro mult_right_mono) simp_all
  then have r_big: "2 powi e \<le> of_int k * q"
    using q_eq by (simp add: mult.commute)
  then have r_max: "2 powi dbl_max_exp \<le> of_int k * q"
    using power_int_increasing [OF e_big, of "2::rat"] by simp
  have rpos: "0 < of_int k * q"
    using r_max two_powi_pos [of dbl_max_exp] by linarith
  have "dbl_max_exp \<le> ilog2 (of_int k * q)"
    using rpos r_max by (rule ilog2_ge)
  moreover have "k \<noteq> 0"
    using rpos by auto
  ultimately show ?thesis
    using mpos qpos max_e
    unfolding round_double_def Let_def e_def [symmetric]
    by (simp add: q_def [symmetric] k_def [symmetric])
qed



lemma ex_pct_inf: "pct_str (2 * 10 ^ 306) 1 = Inr ''+inf%''"
proof -
  define m0 :: rat where "m0 = \<bar>rat_of_int (2 * 10 ^ 306) / rat_of_int 1\<bar>"
  have m0: "m0 = 2 * 10 ^ 306"
    by (simp add: m0_def)
  have lo: "2 powi dbl_min_exp \<le> m0"
    unfolding m0 by (simp add: dbl_min_exp_def power_int_minus field_simps)
  have hi: "m0 < 2 powi (dbl_max_exp - 1)"
    unfolding m0 by (simp add: dbl_max_exp_def)
  from round_double_normal [OF lo hi]
  obtain r1 where r1: "round_double m0 = Some r1" "\<bar>r1 - m0\<bar> \<le> m0 / 2 ^ 53"
    by blast
  have "m0 - m0 / 2 ^ 53 \<le> r1"
    using r1(2) by linarith
  then have "(m0 - m0 / 2 ^ 53) * 100 \<le> r1 * 100"
    by (intro mult_right_mono) simp_all
  moreover have "2 powi dbl_max_exp \<le> (m0 - m0 / 2 ^ 53) * 100"
    unfolding m0 by (simp add: dbl_max_exp_def)
  ultimately have "2 powi dbl_max_exp \<le> r1 * 100"
    by (rule order_trans [rotated])
  then have r2: "round_double (r1 * 100) = None"
    by (rule round_double_overflow)
  have "int_truediv (2 * 10 ^ 306) 1 = Inr (Dbl False r1)"
    unfolding int_truediv_def m0_def [symmetric] using r1(1) by simp
  then have "pct_change (2 * 10 ^ 306) 1 = Inr (DblInf False)"
    unfolding pct_change_def using r2 by (simp add: float_mul_100_def)
  then show ?thesis
    by (simp add: pct_str_def format_plus_2f_def)
qed



end
